theory Spec2Isabelle
  imports Complex_Main "HOL-Library.Sublist"
begin

section \<open>Data model\<close>

text \<open>
  The scripts work on pandas data frames.  A cell is missing (\<open>NaN\<close>), a number or a
  text; a column is a name with its cells; a frame is the list of its columns in source
  order.  Floating-point values are read as real numbers.
\<close>

datatype cell = NA | Num real | Str string

record column =
  cname :: string
  cells :: "cell list"

type_synonym frame = "column list"

text \<open>
  The invariant of a frame: the column names are unique and all columns have the same
  number of rows.
\<close>

definition wf_frame :: "frame \<Rightarrow> bool" where
  "wf_frame df =
     (distinct (map cname df) \<and> list_all (\<lambda>c. length (cells c) = length (cells (hd df))) df)"

text \<open>\<open>len(df)\<close>: the number of rows.\<close>

definition nrows :: "frame \<Rightarrow> nat" where
  "nrows df = (case df of [] \<Rightarrow> 0 | c # _ \<Rightarrow> length (cells c))"

text \<open>\<open>df.columns\<close>.\<close>

definition columns :: "frame \<Rightarrow> string list" where
  "columns df = map cname df"

datatype py_error = KeyError | TypeError | ValueError

text \<open>\<open>df[col]\<close> raises \<open>KeyError\<close> for a name that is not a column.\<close>

definition getitem :: "frame \<Rightarrow> string \<Rightarrow> py_error + cell list" where
  "getitem df col =
     (case find (\<lambda>c. cname c = col) df of None \<Rightarrow> Inl KeyError | Some c \<Rightarrow> Inr (cells c))"

text \<open>\<open>df[col] = values\<close> on an existing column.\<close>

definition setitem :: "frame \<Rightarrow> string \<Rightarrow> cell list \<Rightarrow> frame" where
  "setitem df col vs = map (\<lambda>c. if cname c = col then c\<lparr>cells := vs\<rparr> else c) df"

text \<open>\<open>df[mask]\<close>: the rows at which a boolean mask holds, in their order.\<close>

definition mask_select :: "bool list \<Rightarrow> 'a list \<Rightarrow> 'a list" where
  "mask_select keep xs = map fst (filter snd (zip xs keep))"

definition boolean_index :: "frame \<Rightarrow> bool list \<Rightarrow> frame" where
  "boolean_index df keep = map (\<lambda>c. c\<lparr>cells := mask_select keep (cells c)\<rparr>) df"

section \<open>The pandas operations of the cleaner\<close>

text \<open>\<open>isna\<close>, and \<open>isna().sum()\<close>.\<close>

definition isna :: "cell \<Rightarrow> bool" where
  "isna c = (c = NA)"

definition isna_sum :: "cell list \<Rightarrow> nat" where
  "isna_sum vs = length (filter isna vs)"

text \<open>\<open>ffill\<close>: the last valid value is carried forward; a leading gap stays.\<close>

fun ffill_from :: "cell \<Rightarrow> cell list \<Rightarrow> cell list" where
  "ffill_from prev [] = []"
| "ffill_from prev (x # xs) =
     (if isna x then prev # ffill_from prev xs else x # ffill_from x xs)"

definition ffill :: "cell list \<Rightarrow> cell list" where
  "ffill vs = ffill_from NA vs"

text \<open>\<open>bfill\<close>: the next valid value is carried backward; a trailing gap stays.\<close>

fun bfill :: "cell list \<Rightarrow> cell list" where
  "bfill [] = []"
| "bfill (x # xs) =
     (let rest = bfill xs
      in (if isna x then (case rest of [] \<Rightarrow> NA | y # _ \<Rightarrow> y) else x) # rest)"

text \<open>
  \<open>interpolate(method='linear')\<close>: rows are taken as equally spaced.  A gap between two
  valid values is filled on the straight line between them, a gap after the last valid
  value repeats it, and a gap before the first valid value stays.  \<open>next_valid\<close> finds the
  next number and how many missing cells lie before it; the first argument of
  \<open>interp_from\<close> is the last number seen and the count of missing cells since.
  A text column cannot be interpolated.
\<close>

fun next_valid :: "cell list \<Rightarrow> (nat \<times> real) option" where
  "next_valid [] = None"
| "next_valid (Num v # xs) = Some (0, v)"
| "next_valid (NA # xs) = map_option (\<lambda>(k, v). (Suc k, v)) (next_valid xs)"
| "next_valid (Str s # xs) = None"

fun interp_from :: "(nat \<times> real) option \<Rightarrow> cell list \<Rightarrow> cell list" where
  "interp_from prev [] = []"
| "interp_from prev (Num v # xs) = Num v # interp_from (Some (0, v)) xs"
| "interp_from prev (Str s # xs) = Str s # interp_from None xs"
| "interp_from prev (NA # xs) =
     (case prev of
        None \<Rightarrow> NA # interp_from None xs
      | Some (d, a) \<Rightarrow>
          (case next_valid xs of
             None \<Rightarrow> Num a
           | Some (k, b) \<Rightarrow> Num (a + (b - a) * real (d + 1) / real (d + k + 2)))
          # interp_from (Some (Suc d, a)) xs)"

definition is_text :: "cell \<Rightarrow> bool" where
  "is_text c = (case c of Str _ \<Rightarrow> True | _ \<Rightarrow> False)"

definition interpolate :: "cell list \<Rightarrow> py_error + cell list" where
  "interpolate vs = (if list_ex is_text vs then Inl TypeError else Inr (interp_from None vs))"

text \<open>\<open>dropna(subset=[col])\<close>: the rows whose cell in \<open>col\<close> is not missing.\<close>

definition dropna :: "frame \<Rightarrow> string \<Rightarrow> py_error + frame" where
  "dropna df col =
     (case getitem df col of
        Inl e \<Rightarrow> Inl e
      | Inr vs \<Rightarrow> Inr (boolean_index df (map (\<lambda>v. \<not> isna v) vs)))"

section \<open>The cleaner\<close>

text \<open>
  \<open>clean_data\<close> of \<open>plot_1960_2025.py\<close>; the one of \<open>download_and_plot.py\<close> has the same
  statements and prints less.  The count of missing values and its percentage are only
  printed: \<open>missing_report\<close> is that output.  The count is a numpy integer, whose
  division by a zero row count gives \<open>nan\<close> (here \<open>None\<close>) and does not raise.
\<close>

definition missing_report :: "cell list \<Rightarrow> nat \<Rightarrow> nat \<times> real option" where
  "missing_report vs n =
     (isna_sum vs, if n = 0 then None else Some (real (isna_sum vs) / real n * 100))"

definition clean_data :: "frame \<Rightarrow> string \<Rightarrow> py_error + frame" where
  "clean_data df streamflow_col =
     (case getitem df streamflow_col of
        Inl e \<Rightarrow> Inl e
      | Inr vs \<Rightarrow>
          let missing_count = isna_sum vs in
          if missing_count > 0 then
            (let filled = bfill (ffill vs);
                 remaining = isna_sum filled
             in case (if remaining > 0 then interpolate filled else Inr filled) of
                  Inl e \<Rightarrow> Inl e
                | Inr vs' \<Rightarrow> dropna (setitem df streamflow_col vs') streamflow_col)
          else Inr df)"

section \<open>The column identifier\<close>

text \<open>
  Column names are byte strings (UTF-8).  \<open>str.lower\<close> is modelled on the ASCII letters;
  the search terms are ASCII but for the byte pair of the superscript three.
  \<open>t in s\<close> on strings is the search for a contiguous substring.
\<close>

definition lower_char :: "char \<Rightarrow> char" where
  "lower_char c =
     (let n = (of_char c :: nat) in if 65 \<le> n \<and> n \<le> 90 then char_of (n + 32) else c)"

definition lower :: "string \<Rightarrow> string" where
  "lower s = map lower_char s"

fun py_in :: "string \<Rightarrow> string \<Rightarrow> bool" where
  "py_in t [] = (t = [])"
| "py_in t (c # cs) = (prefix t (c # cs) \<or> py_in t cs)"

definition any_term_in :: "string list \<Rightarrow> string \<Rightarrow> bool" where
  "any_term_in terms s = list_ex (\<lambda>t. py_in t s) terms"

definition m3_per_s :: string where
  "m3_per_s = [CHR ''m'', CHR 0xC2, CHR 0xB3, CHR ''/'', CHR ''s'']"

text \<open>
  \<open>select_dtypes(include=['number'])\<close>: the readers give a column a numeric type when it
  has rows and none of its cells is a text.
\<close>

definition is_number_col :: "column \<Rightarrow> bool" where
  "is_number_col c = (cells c \<noteq> [] \<and> \<not> list_ex is_text (cells c))"

definition numeric_columns :: "frame \<Rightarrow> string list" where
  "numeric_columns df = map cname (filter is_number_col df)"

text \<open>The first column of a \<open>for\<close> loop with \<open>break\<close> that passes a test, if any.\<close>

definition first_col :: "(string \<Rightarrow> bool) \<Rightarrow> frame \<Rightarrow> string option" where
  "first_col P df = map_option cname (find (\<lambda>c. P (lower (cname c))) df)"

text \<open>
  \<open>if date_col and date_col in numeric_cols: numeric_cols.remove(date_col)\<close>.  A column
  name that matched a search term is not the empty string, so \<open>date_col\<close> is true when
  it is not \<open>None\<close>.
\<close>

definition remove_date :: "string option \<Rightarrow> string list \<Rightarrow> string list" where
  "remove_date date_col numeric_cols =
     (case date_col of None \<Rightarrow> numeric_cols | Some d \<Rightarrow> remove1 d numeric_cols)"

text \<open>\<open>identify_columns\<close> of \<open>plot_1960_2025.py\<close>.\<close>

definition date_terms :: "string list" where
  "date_terms = [''date'', ''time'', ''fecha'', ''dia'', ''fecha'']"

definition flow_terms :: "string list" where
  "flow_terms =
     [''q'', ''streamflow'', ''flow'', ''caudal'', ''m3s'', m3_per_s, ''discharge'', ''valor'']"

definition exclude :: "string list" where
  "exclude = [''longitud'', ''latitud'', ''lon'', ''lat'', ''x'', ''y'']"

definition identify_columns :: "frame \<Rightarrow> string option \<times> string option" where
  "identify_columns df =
     (let date_col = first_col (any_term_in date_terms) df;
          streamflow_col =
            first_col (\<lambda>col_lower. any_term_in flow_terms col_lower
                         \<and> \<not> py_in ''longitud'' col_lower \<and> \<not> py_in ''latitud'' col_lower) df
      in case streamflow_col of
           Some c \<Rightarrow> (date_col, Some c)
         | None \<Rightarrow>
             (let numeric_cols = remove_date date_col (numeric_columns df);
                  numeric_cols = filter (\<lambda>col. lower col \<notin> set exclude) numeric_cols
              in (date_col, if length numeric_cols > 0 then Some (hd numeric_cols) else None)))"

text \<open>
  \<open>identify_columns\<close> of \<open>download_and_plot.py\<close>: no \<open>valor\<close> among the terms, no test
  for coordinates in either pass.
\<close>

definition dl_date_terms :: "string list" where
  "dl_date_terms = [''date'', ''time'', ''fecha'', ''fecha'', ''dia'']"

definition dl_flow_terms :: "string list" where
  "dl_flow_terms = [''q'', ''streamflow'', ''flow'', ''caudal'', ''m3s'', m3_per_s, ''discharge'']"

definition dl_identify_columns :: "frame \<Rightarrow> string option \<times> string option" where
  "dl_identify_columns df =
     (let date_col = first_col (any_term_in dl_date_terms) df;
          streamflow_col = first_col (any_term_in dl_flow_terms) df
      in case streamflow_col of
           Some c \<Rightarrow> (date_col, Some c)
         | None \<Rightarrow>
             (let numeric_cols = remove_date date_col (numeric_columns df)
              in (date_col, if length numeric_cols > 0 then Some (hd numeric_cols) else None)))"

section \<open>Timestamps\<close>

text \<open>
  A timestamp is its count of nanoseconds since 1970-01-01, as pandas stores it, here
  without the 64-bit bound; \<open>NaT\<close> is \<open>None\<close>.  \<open>Timestamp y m d\<close> is midnight of a
  calendar day (proleptic Gregorian calendar), which is what the scripts' date literals
  denote.
\<close>

type_synonym timestamp = int

definition day_ns :: int where
  "day_ns = 86400 * 1000000000"

definition days_from_civil :: "int \<Rightarrow> int \<Rightarrow> int \<Rightarrow> int" where
  "days_from_civil y m d =
     (let y' = (if m \<le> 2 then y - 1 else y);
          era = y' div 400;
          yoe = y' - era * 400;
          doy = (153 * (if m > 2 then m - 3 else m + 9) + 2) div 5 + d - 1;
          doe = yoe * 365 + yoe div 4 - yoe div 100 + doy
      in era * 146097 + doe - 719468)"

definition Timestamp :: "int \<Rightarrow> int \<Rightarrow> int \<Rightarrow> timestamp" where
  "Timestamp y m d = days_from_civil y m d * day_ns"

text \<open>\<open>pd.date_range(start=..., periods=n, freq='D')\<close>.\<close>

definition date_range :: "timestamp \<Rightarrow> nat \<Rightarrow> timestamp option list" where
  "date_range start periods = map (\<lambda>k. Some (start + int k * day_ns)) [0..<periods]"

text \<open>\<open>dates.isna().all()\<close>.\<close>

definition all_nat :: "timestamp option list \<Rightarrow> bool" where
  "all_nat dates = list_all (\<lambda>d. d = None) dates"

section \<open>The plotting stage\<close>

text \<open>
  \<open>create_plot\<close> of \<open>plot_1960_2025.py\<close> and of \<open>download_and_plot.py\<close>, which agree up
  to the layout of the figure.  \<open>pd.to_datetime(..., errors='coerce')\<close> is a parameter:
  how it reads one cell, \<open>None\<close> for a cell it cannot read.
\<close>

definition process_dates ::
  "(cell \<Rightarrow> timestamp option) \<Rightarrow> frame \<Rightarrow> string option \<Rightarrow> timestamp option list" where
  "process_dates to_datetime df date_col =
     (case date_col of
        None \<Rightarrow> date_range (Timestamp 1960 1 1) (nrows df)
      | Some d \<Rightarrow>
          (case getitem df d of
             Inr vs \<Rightarrow> map to_datetime vs
           | Inl _ \<Rightarrow> date_range (Timestamp 1960 1 1) (nrows df)))"

text \<open>
  \<open>(dates >= pd.Timestamp('1960-01-01')) & (dates <= pd.Timestamp('2025-12-31'))\<close>;
  a comparison with \<open>NaT\<close> is false.
\<close>

definition window_mask :: "timestamp option list \<Rightarrow> bool list" where
  "window_mask dates =
     map (\<lambda>d. case d of None \<Rightarrow> False
               | Some t \<Rightarrow> Timestamp 1960 1 1 \<le> t \<and> t \<le> Timestamp 2025 12 31) dates"

definition filter_window ::
  "frame \<Rightarrow> timestamp option list \<Rightarrow> frame \<times> timestamp option list" where
  "filter_window df dates =
     (if \<not> all_nat dates then
        (let keep = window_mask dates;
             df_plot = boolean_index df keep;
             dates_plot = mask_select keep dates
         in if nrows df_plot = 0 then (df, dates) else (df_plot, dates_plot))
      else (df, dates))"

text \<open>
  The statistics box formats the minimum, maximum and mean of the plotted values with
  \<open>:.2f\<close>.  Missing cells are skipped, and an empty column gives \<open>nan\<close> (\<open>None\<close>).  On a
  column with texts this raises: \<open>TypeError\<close> when texts are compared with numbers,
  \<open>ValueError\<close> when the minimum, a text, meets the format.
\<close>

definition numbers_of :: "cell list \<Rightarrow> real list" where
  "numbers_of vs = concat (map (\<lambda>c. case c of Num v \<Rightarrow> [v] | _ \<Rightarrow> []) vs)"

record stats =
  stat_min :: "real option"
  stat_max :: "real option"
  stat_mean :: "real option"

definition column_stats :: "cell list \<Rightarrow> py_error + stats" where
  "column_stats vs =
     (let xs = numbers_of vs in
      if list_ex is_text vs then Inl (if xs = [] then ValueError else TypeError)
      else if xs = [] then Inr \<lparr>stat_min = None, stat_max = None, stat_mean = None\<rparr>
      else Inr \<lparr>stat_min = Some (fold min (tl xs) (hd xs)),
                stat_max = Some (fold max (tl xs) (hd xs)),
                stat_mean = Some (sum_list xs / real (length xs))\<rparr>)"

text \<open>
  What the chart shows: the dates and values of the line, the record count and the
  statistics.  The title's year range, the median that \<open>plot_1960_2025.py\<close> adds to the
  box and the rendering itself are left out, and with them the exceptions that the calls
  of the plotting library can raise on their own.  The figure is saved last, so an
  exception before it leaves no chart file.
\<close>

record chart =
  chart_dates :: "timestamp option list"
  chart_values :: "cell list"
  chart_records :: nat
  chart_stats :: stats

definition create_plot ::
  "(cell \<Rightarrow> timestamp option) \<Rightarrow> frame \<Rightarrow> string option \<Rightarrow> string \<Rightarrow> py_error + chart" where
  "create_plot to_datetime df date_col streamflow_col =
     (let dates = process_dates to_datetime df date_col;
          (df_plot, dates_plot) = filter_window df dates
      in case getitem df_plot streamflow_col of
           Inl e \<Rightarrow> Inl e
         | Inr vs \<Rightarrow>
             (case column_stats vs of
                Inl e \<Rightarrow> Inl e
              | Inr st \<Rightarrow>
                  Inr \<lparr>chart_dates = dates_plot, chart_values = vs,
                       chart_records = nrows df_plot, chart_stats = st\<rparr>))"

text \<open>
  The dates of \<open>create_plot\<close> in \<open>extract_rinihue_streamflow.py\<close>, which finds the date
  column itself.  Without one it starts the generated dates in 1960 only for more than
  20000 rows, and in 1970 otherwise; with one whose cells all fail to parse it starts
  them in 1960.
\<close>

definition extract_date_terms :: "string list" where
  "extract_date_terms = [''date'', ''time'', ''fecha'']"

definition extract_date_col :: "frame \<Rightarrow> column option" where
  "extract_date_col df = find (\<lambda>c. any_term_in extract_date_terms (lower (cname c))) df"

definition extract_dates :: "(cell \<Rightarrow> timestamp option) \<Rightarrow> frame \<Rightarrow> timestamp option list" where
  "extract_dates to_datetime df =
     (case extract_date_col df of
        None \<Rightarrow>
          (let start_date = (if nrows df > 20000 then Timestamp 1960 1 1 else Timestamp 1970 1 1)
           in date_range start_date (nrows df))
      | Some date_col \<Rightarrow>
          (let dates = map to_datetime (cells date_col)
           in if all_nat dates then date_range (Timestamp 1960 1 1) (nrows df) else dates))"

section \<open>Reading delimited text\<close>

text \<open>
  \<open>pd.read_csv\<close> is a parameter: what it returns for a path, a separator and an
  encoding, \<open>None\<close> when it raises.  The loaders return their result together with the
  calls of \<open>read_csv\<close> they made, in order.
\<close>

datatype sep = Comma | Tab | Whitespace

datatype encoding = UTF8 | Latin1

type_synonym csv_reader = "string \<Rightarrow> sep \<Rightarrow> encoding \<Rightarrow> frame option"

text \<open>
  \<open>load_data_from_file\<close> of \<open>extract_rinihue_streamflow.py\<close>.  The branch for Excel files
  is the parameter \<open>load_excel\<close>; every other path goes through the chain of attempts,
  and only the failure of the last one raises \<open>ValueError\<close>.
\<close>

definition load_data_from_file ::
  "(string \<Rightarrow> py_error + frame) \<Rightarrow> csv_reader \<Rightarrow> string
     \<Rightarrow> (py_error + frame) \<times> (sep \<times> encoding) list" where
  "load_data_from_file load_excel read_csv filepath =
     (if suffix ''.xlsx'' filepath \<or> suffix ''.xls'' filepath then (load_excel filepath, [])
      else
        case read_csv filepath Comma UTF8 of
          Some df \<Rightarrow> (Inr df, [(Comma, UTF8)])
        | None \<Rightarrow>
            (case read_csv filepath Comma Latin1 of
               Some df \<Rightarrow> (Inr df, [(Comma, UTF8), (Comma, Latin1)])
             | None \<Rightarrow>
                 (case read_csv filepath Tab UTF8 of
                    Some df \<Rightarrow> (Inr df, [(Comma, UTF8), (Comma, Latin1), (Tab, UTF8)])
                  | None \<Rightarrow>
                      (case read_csv filepath Whitespace UTF8 of
                         Some df \<Rightarrow>
                           (Inr df,
                            [(Comma, UTF8), (Comma, Latin1), (Tab, UTF8), (Whitespace, UTF8)])
                       | None \<Rightarrow>
                           (Inl ValueError,
                            [(Comma, UTF8), (Comma, Latin1), (Tab, UTF8), (Whitespace, UTF8)])))))"

text \<open>
  \<open>load_and_process_data\<close> of \<open>download_and_plot.py\<close>: two encodings of comma-separated
  text and nothing else; any failure is reported and \<open>None\<close> returned.
\<close>

definition load_and_process_data ::
  "(string \<Rightarrow> frame option) \<Rightarrow> csv_reader \<Rightarrow> string
     \<Rightarrow> frame option \<times> (sep \<times> encoding) list" where
  "load_and_process_data read_excel read_csv filepath =
     (if suffix ''.xlsx'' filepath then (read_excel filepath, [])
      else
        case read_csv filepath Comma UTF8 of
          Some df \<Rightarrow> (Some df, [(Comma, UTF8)])
        | None \<Rightarrow>
            (case read_csv filepath Comma Latin1 of
               Some df \<Rightarrow> (Some df, [(Comma, UTF8), (Comma, Latin1)])
             | None \<Rightarrow> (None, [(Comma, UTF8), (Comma, Latin1)])))"

section \<open>The pipeline\<close>

text \<open>
  \<open>main\<close> of \<open>plot_1960_2025.py\<close> and of \<open>download_and_plot.py\<close>: both return 1 when no
  data file is found, when loading fails and when no value column is identified; then
  they clean, write the cleaned table with \<open>to_csv\<close>, and only then plot.  Neither
  catches an exception.  The parameters are the outcome of the search for (or download
  of) the data file and the loader.  A run ends with its exit status, or the exception
  that ended it, and the two output files it wrote.
\<close>

record run =
  exit_status :: "py_error + nat"
  cleaned_csv :: "frame option"
  plot_png :: "chart option"

definition pipeline ::
  "(frame \<Rightarrow> string option \<times> string option) \<Rightarrow> (cell \<Rightarrow> timestamp option)
     \<Rightarrow> string option \<Rightarrow> (string \<Rightarrow> frame option) \<Rightarrow> run" where
  "pipeline identify to_datetime data_file load =
     (case data_file of
        None \<Rightarrow> \<lparr>exit_status = Inr 1, cleaned_csv = None, plot_png = None\<rparr>
      | Some filepath \<Rightarrow>
          (case load filepath of
             None \<Rightarrow> \<lparr>exit_status = Inr 1, cleaned_csv = None, plot_png = None\<rparr>
           | Some df \<Rightarrow>
               (case identify df of
                  (date_col, None) \<Rightarrow>
                    \<lparr>exit_status = Inr 1, cleaned_csv = None, plot_png = None\<rparr>
                | (date_col, Some streamflow_col) \<Rightarrow>
                    (case clean_data df streamflow_col of
                       Inl e \<Rightarrow> \<lparr>exit_status = Inl e, cleaned_csv = None, plot_png = None\<rparr>
                     | Inr df_clean \<Rightarrow>
                         (case create_plot to_datetime df_clean date_col streamflow_col of
                            Inl e \<Rightarrow>
                              \<lparr>exit_status = Inl e, cleaned_csv = Some df_clean,
                               plot_png = None\<rparr>
                          | Inr c \<Rightarrow>
                              \<lparr>exit_status = Inr 0, cleaned_csv = Some df_clean,
                               plot_png = Some c\<rparr>)))))"

definition main ::
  "(cell \<Rightarrow> timestamp option) \<Rightarrow> string option \<Rightarrow> (string \<Rightarrow> frame option) \<Rightarrow> run" where
  "main = pipeline identify_columns"

definition dl_main ::
  "(cell \<Rightarrow> timestamp option) \<Rightarrow> string option \<Rightarrow> (string \<Rightarrow> frame option) \<Rightarrow> run" where
  "dl_main = pipeline dl_identify_columns"

section \<open>Writing the cleaned table and reading it back\<close>

text \<open>
  \<open>df_clean.to_csv(OUTPUT_CSV, index=False)\<close> and \<open>pd.read_csv(filepath, encoding='utf-8')\<close>,
  after the documentation of pandas and of the csv module.  Texts are byte strings, so the
  encoding changes nothing.  How a number is written and which texts are read as which
  numbers are parameters, \<open>float_repr\<close> and \<open>parse_float\<close>.
\<close>

abbreviation COMMA :: char where "COMMA \<equiv> CHR 0x2C"

abbreviation DQUOTE :: char where "DQUOTE \<equiv> CHR 0x22"

abbreviation LF :: char where "LF \<equiv> CHR 0x0A"

abbreviation CR :: char where "CR \<equiv> CHR 0x0D"

text \<open>
  The writer puts a field between quotes, with every quote in it doubled, when the field
  holds a comma, a quote or a line break.  Versions of the csv module differ on a lone
  carriage return inside a field; here it is quoted.  A row that consists of one empty
  field is written as a pair of quotes.  Every row ends with a line feed.
\<close>

definition needs_quote :: "string \<Rightarrow> bool" where
  "needs_quote f = list_ex (\<lambda>c. c = COMMA \<or> c = DQUOTE \<or> c = LF \<or> c = CR) f"

fun escape_quotes :: "string \<Rightarrow> string" where
  "escape_quotes [] = []"
| "escape_quotes (c # cs) =
     (if c = DQUOTE then DQUOTE # DQUOTE # escape_quotes cs else c # escape_quotes cs)"

definition encode_field :: "string \<Rightarrow> string" where
  "encode_field f = (if needs_quote f then DQUOTE # escape_quotes f @ [DQUOTE] else f)"

fun join_fields :: "string list \<Rightarrow> string" where
  "join_fields [] = []"
| "join_fields [f] = encode_field f"
| "join_fields (f # g # gs) = encode_field f @ COMMA # join_fields (g # gs)"

definition encode_row :: "string list \<Rightarrow> string" where
  "encode_row fs = (if fs = [[]] then [DQUOTE, DQUOTE] else join_fields fs) @ [LF]"

text \<open>
  The rows of the file: the column names, then the rows of the frame in their order, a
  missing cell as the empty field (\<open>na_rep=''\<close>) and no index column.
\<close>

definition cell_field :: "(real \<Rightarrow> string) \<Rightarrow> cell \<Rightarrow> string" where
  "cell_field float_repr c = (case c of NA \<Rightarrow> [] | Num v \<Rightarrow> float_repr v | Str s \<Rightarrow> s)"

definition cell_at :: "column \<Rightarrow> nat \<Rightarrow> cell" where
  "cell_at col i = (if i < length (cells col) then cells col ! i else NA)"

definition csv_rows :: "(real \<Rightarrow> string) \<Rightarrow> frame \<Rightarrow> string list list" where
  "csv_rows float_repr df =
     columns df # map (\<lambda>i. map (\<lambda>col. cell_field float_repr (cell_at col i)) df) [0..<nrows df]"

definition to_csv :: "(real \<Rightarrow> string) \<Rightarrow> frame \<Rightarrow> string" where
  "to_csv float_repr df = concat (map encode_row (csv_rows float_repr df))"

text \<open>
  The reader splits the text into rows of fields, one character at a time.  A line feed, a
  carriage return or the pair of them ends a row outside quotes; an empty line is skipped;
  inside quotes every character but the quote belongs to the field, and a doubled quote is
  one quote.  The arguments are the state, the field and the row read so far.  Text that
  ends inside quotes is an error (\<open>None\<close>).
\<close>

datatype tstate = StartRecord | EatCRNL | StartField | InField | InQuoted | QuoteInQuoted

fun tokenize :: "tstate \<Rightarrow> string \<Rightarrow> string list \<Rightarrow> string \<Rightarrow> string list list option" where
  "tokenize StartRecord fld row [] = Some []"
| "tokenize EatCRNL fld row [] = Some []"
| "tokenize StartField fld row [] = Some [row @ [fld]]"
| "tokenize InField fld row [] = Some [row @ [fld]]"
| "tokenize InQuoted fld row [] = None"
| "tokenize QuoteInQuoted fld row [] = Some [row @ [fld]]"
| "tokenize StartRecord fld row (c # cs) =
     (if c = LF then tokenize StartRecord [] [] cs
      else if c = CR then tokenize EatCRNL [] [] cs
      else if c = DQUOTE then tokenize InQuoted [] [] cs
      else if c = COMMA then tokenize StartField [] [[]] cs
      else tokenize InField [c] [] cs)"
| "tokenize EatCRNL fld row (c # cs) =
     (if c = LF then tokenize StartRecord [] [] cs
      else if c = CR then tokenize EatCRNL [] [] cs
      else if c = DQUOTE then tokenize InQuoted [] [] cs
      else if c = COMMA then tokenize StartField [] [[]] cs
      else tokenize InField [c] [] cs)"
| "tokenize StartField fld row (c # cs) =
     (if c = LF then map_option ((#) (row @ [[]])) (tokenize StartRecord [] [] cs)
      else if c = CR then map_option ((#) (row @ [[]])) (tokenize EatCRNL [] [] cs)
      else if c = DQUOTE then tokenize InQuoted [] row cs
      else if c = COMMA then tokenize StartField [] (row @ [[]]) cs
      else tokenize InField [c] row cs)"
| "tokenize InField fld row (c # cs) =
     (if c = LF then map_option ((#) (row @ [fld])) (tokenize StartRecord [] [] cs)
      else if c = CR then map_option ((#) (row @ [fld])) (tokenize EatCRNL [] [] cs)
      else if c = COMMA then tokenize StartField [] (row @ [fld]) cs
      else tokenize InField (fld @ [c]) row cs)"
| "tokenize InQuoted fld row (c # cs) =
     (if c = DQUOTE then tokenize QuoteInQuoted fld row cs
      else tokenize InQuoted (fld @ [c]) row cs)"
| "tokenize QuoteInQuoted fld row (c # cs) =
     (if c = DQUOTE then tokenize InQuoted (fld @ [DQUOTE]) row cs
      else if c = LF then map_option ((#) (row @ [fld])) (tokenize StartRecord [] [] cs)
      else if c = CR then map_option ((#) (row @ [fld])) (tokenize EatCRNL [] [] cs)
      else if c = COMMA then tokenize StartField [] (row @ [fld]) cs
      else tokenize InField (fld @ [c]) row cs)"

text \<open>The fields that the reader takes for a missing value (\<open>na_values\<close>, the default).\<close>

definition na_values :: "string list" where
  "na_values =
     [[], ''#N/A'', ''#N/A N/A'', ''#NA'', ''-1.#IND'', ''-1.#QNAN'', ''-NaN'', ''-nan'',
      ''1.#IND'', ''1.#QNAN'', ''<NA>'', ''N/A'', ''NA'', ''NULL'', ''NaN'', ''None'', ''n/a'',
      ''nan'', ''null'']"

text \<open>
  The type of a column is inferred from its fields: when every field that is not missing
  reads as a number the cells are these numbers, otherwise they are the texts.
\<close>

definition infer_cells :: "(string \<Rightarrow> real option) \<Rightarrow> string list \<Rightarrow> cell list" where
  "infer_cells parse_float fs =
     (if list_all (\<lambda>f. f \<in> set na_values \<or> parse_float f \<noteq> None) fs then
        map (\<lambda>f. if f \<in> set na_values then NA
                  else (case parse_float f of Some v \<Rightarrow> Num v | None \<Rightarrow> Str f)) fs
      else map (\<lambda>f. if f \<in> set na_values then NA else Str f) fs)"

text \<open>
  The first row is the header.  A row with fewer fields than the header is filled with
  missing values; one with more is an error, as is a text without any row.  The renaming
  of empty and repeated names in a header is left out: the names of a frame are distinct,
  and a frame that was read has no empty name.
\<close>

definition field_at :: "string list \<Rightarrow> nat \<Rightarrow> string" where
  "field_at r j = (if j < length r then r ! j else [])"

definition pd_read_csv :: "(string \<Rightarrow> real option) \<Rightarrow> string \<Rightarrow> frame option" where
  "pd_read_csv parse_float text =
     (case tokenize StartRecord [] [] text of
        None \<Rightarrow> None
      | Some [] \<Rightarrow> None
      | Some (header # rows) \<Rightarrow>
          if list_ex (\<lambda>r. length header < length r) rows then None
          else Some (map (\<lambda>j. \<lparr>cname = header ! j,
                                cells = infer_cells parse_float (map (\<lambda>r. field_at r j) rows)\<rparr>)
                       [0..<length header]))"

text \<open>
  \<open>load_data\<close> of \<open>plot_1960_2025.py\<close>.  The branch for \<open>.xlsx\<close> files is the parameter
  \<open>load_xlsx\<close>; \<open>files\<close> gives the content of a file by its path.  Any exception is caught
  and \<open>None\<close> returned.
\<close>

definition load_data ::
  "(string \<Rightarrow> frame option) \<Rightarrow> (string \<Rightarrow> real option) \<Rightarrow> (string \<Rightarrow> string option)
     \<Rightarrow> string \<Rightarrow> frame option" where
  "load_data load_xlsx parse_float files filepath =
     (if suffix ''.xlsx'' filepath then load_xlsx filepath
      else case files filepath of
             None \<Rightarrow> None
           | Some text \<Rightarrow> pd_read_csv parse_float text)"

definition OUTPUT_CSV :: string where
  "OUTPUT_CSV = ''rinihue_streamflow_cleaned_1960_2025.csv''"



section \<open>Example inputs\<close>

text \<open>The frame of the scenario: header \<open>fecha,caudal_m3s\<close> and four rows.\<close>

definition scenario_frame :: frame where
  "scenario_frame =
     [\<lparr>cname = ''fecha'',
        cells = [Str ''1961-01-01'', Str ''1961-01-02'', Str ''1961-01-03'', Str ''1961-01-04'']\<rparr>,
      \<lparr>cname = ''caudal_m3s'', cells = [NA, Num 12.5, NA, Num 14]\<rparr>]"

text \<open>The scenario after cleaning.\<close>

definition scenario_cleaned :: frame where
  "scenario_cleaned =
     [\<lparr>cname = ''fecha'',
        cells = [Str ''1961-01-01'', Str ''1961-01-02'', Str ''1961-01-03'', Str ''1961-01-04'']\<rparr>,
      \<lparr>cname = ''caudal_m3s'', cells = [Num 12.5, Num 12.5, Num 12.5, Num 14]\<rparr>]"

text \<open>A frame with a header and no rows.\<close>

definition empty_frame :: frame where
  "empty_frame = [\<lparr>cname = ''fecha'', cells = []\<rparr>, \<lparr>cname = ''caudal_m3s'', cells = []\<rparr>]"

text \<open>A frame whose value column is missing in every row, and what is left of it.\<close>

definition all_missing_frame :: frame where
  "all_missing_frame =
     [\<lparr>cname = ''fecha'', cells = [Str ''1961-01-01'', Str ''1961-01-02'']\<rparr>,
      \<lparr>cname = ''caudal_m3s'', cells = [NA, NA]\<rparr>]"

definition all_missing_cleaned :: frame where
  "all_missing_cleaned = [\<lparr>cname = ''fecha'', cells = []\<rparr>, \<lparr>cname = ''caudal_m3s'', cells = []\<rparr>]"

text \<open>A frame with one gap between two values, and the frame after cleaning.\<close>

definition interior_frame :: frame where
  "interior_frame =
     [\<lparr>cname = ''fecha'', cells = [Str ''1961-01-01'', Str ''1961-01-02'', Str ''1961-01-03'']\<rparr>,
      \<lparr>cname = ''caudal_m3s'', cells = [Num 12.5, NA, Num 14]\<rparr>]"

definition interior_cleaned :: frame where
  "interior_cleaned =
     [\<lparr>cname = ''fecha'', cells = [Str ''1961-01-01'', Str ''1961-01-02'', Str ''1961-01-03'']\<rparr>,
      \<lparr>cname = ''caudal_m3s'', cells = [Num 12.5, Num 12.5, Num 14]\<rparr>]"

text \<open>A frame of a map export: two coordinate columns and a value column.\<close>

definition coords_frame :: frame where
  "coords_frame =
     [\<lparr>cname = ''longitud'', cells = [Num (-72.5)]\<rparr>,
      \<lparr>cname = ''latitud'', cells = [Num (-39.8)]\<rparr>,
      \<lparr>cname = ''valor'', cells = [Num 12.5]\<rparr>]"

text \<open>A reader for which a file parses as tab-separated text only.\<close>

definition tab_only_reader :: csv_reader where
  "tab_only_reader filepath s e = (if s = Tab then Some scenario_frame else None)"

definition no_excel :: "string \<Rightarrow> py_error + frame" where
  "no_excel filepath = Inl ValueError"

definition no_read_excel :: "string \<Rightarrow> frame option" where
  "no_read_excel filepath = None"

text \<open>The attempts of the longest chain, in its order.\<close>

definition four_attempts :: "(sep \<times> encoding) list" where
  "four_attempts = [(Comma, UTF8), (Comma, Latin1), (Tab, UTF8), (Whitespace, UTF8)]"

text \<open>
  A frame with a date column and a text column whose name contains the letter q, and
  loaders that return a given frame for any path.
\<close>

definition flag_frame :: frame where
  "flag_frame =
     [\<lparr>cname = ''fecha'', cells = [Str ''1961-01-01'', Str ''1961-01-02'']\<rparr>,
      \<lparr>cname = ''quality'', cells = [Str ''ok'', Str ''ok'']\<rparr>]"

definition load_flag_frame :: "string \<Rightarrow> frame option" where
  "load_flag_frame filepath = Some flag_frame"

definition data_csv :: string where
  "data_csv = ''data/rinihue_streamflow.csv''"

definition raw_csv :: string where
  "raw_csv = ''data/rinihue_streamflow_raw.csv''"

text \<open>A date parser that reads the dates of the examples.\<close>

definition example_to_datetime :: "cell \<Rightarrow> timestamp option" where
  "example_to_datetime c =
     (if c = Str ''1950-06-01'' then Some (Timestamp 1950 6 1)
      else if c = Str ''1961-01-01'' then Some (Timestamp 1961 1 1)
      else if c = Str ''1961-01-02'' then Some (Timestamp 1961 1 2)
      else if c = Str ''1961-01-03'' then Some (Timestamp 1961 1 3)
      else if c = Str ''1961-01-04'' then Some (Timestamp 1961 1 4)
      else if c = Str ''2030-01-01'' then Some (Timestamp 2030 1 1)
      else None)"

text \<open>A frame whose dates all lie outside 1960 to 2025, and its chart.\<close>

definition out_of_window_frame :: frame where
  "out_of_window_frame =
     [\<lparr>cname = ''fecha'', cells = [Str ''1950-06-01'', Str ''2030-01-01'']\<rparr>,
      \<lparr>cname = ''caudal_m3s'', cells = [Num 12.5, Num 14]\<rparr>]"

definition out_of_window_chart :: chart where
  "out_of_window_chart =
     \<lparr>chart_dates = [Some (Timestamp 1950 6 1), Some (Timestamp 2030 1 1)],
      chart_values = [Num 12.5, Num 14], chart_records = 2,
      chart_stats = \<lparr>stat_min = Some 12.5, stat_max = Some 14, stat_mean = Some 13.25\<rparr>\<rparr>"

text \<open>
  The numbers of the examples as pandas writes them, and the reading of these texts.
\<close>

definition example_float_repr :: "real \<Rightarrow> string" where
  "example_float_repr v = (if v = 12.5 then ''12.5'' else if v = 14 then ''14.0'' else ''0.0'')"

definition example_parse_float :: "string \<Rightarrow> real option" where
  "example_parse_float s =
     (if s = ''12.5'' then Some 12.5 else if s = ''14.0'' then Some 14
      else if s = ''0.0'' then Some 0 else None)"

text \<open>A file system that holds the cleaned scenario under the name of the output file.\<close>

definition example_files :: "string \<Rightarrow> string option" where
  "example_files filepath =
     (if filepath = OUTPUT_CSV then Some (to_csv example_float_repr scenario_cleaned) else None)"

definition no_xlsx :: "string \<Rightarrow> frame option" where
  "no_xlsx filepath = None"

text \<open>A frame with a comma in a name, and quotes and a line feed in its texts.\<close>

definition station_frame :: frame where
  "station_frame =
     [\<lparr>cname = ''estacion, rio'',
        cells = [Str (''Lago '' @ [DQUOTE] @ ''Rinihue'' @ [DQUOTE]), Str (''desague'' @ [LF] @ ''norte'')]\<rparr>,
      \<lparr>cname = ''caudal_m3s'', cells = [Num 12.5, Num 14]\<rparr>]"

section \<open>Filling and selecting\<close>

lemmas frame_ops =
  getitem_def setitem_def boolean_index_def mask_select_def dropna_def isna_sum_def isna_def
  ffill_def interpolate_def is_text_def nrows_def columns_def wf_frame_def

lemmas identify_ops =
  first_col_def any_term_in_def date_terms_def flow_terms_def dl_date_terms_def
  dl_flow_terms_def exclude_def m3_per_s_def lower_def lower_char_def remove_date_def
  numeric_columns_def is_number_col_def is_text_def

lemma length_ffill_from: "length (ffill_from p xs) = length xs"
  by (induction xs arbitrary: p) auto

lemma length_ffill: "length (ffill xs) = length xs"
  by (simp add: ffill_def length_ffill_from)

lemma length_bfill: "length (bfill xs) = length xs"
  by (induction xs) (auto simp: Let_def)

lemma length_interp_from: "length (interp_from p xs) = length xs"
  by (induction p xs rule: interp_from.induct) (auto split: option.splits)

lemma set_ffill_from: "set (ffill_from p xs) \<subseteq> insert p (set xs)"
  by (induction xs arbitrary: p) auto

lemma set_bfill: "set (bfill xs) \<subseteq> insert NA (set xs)"
  by (induction xs) (auto simp: Let_def split: list.splits)

lemma ffill_from_Nil_iff: "ffill_from p xs = [] \<longleftrightarrow> xs = []"
  by (cases xs) auto

lemma ffill_from_last:
  "xs \<noteq> [] \<Longrightarrow> last (ffill_from p xs) = NA \<Longrightarrow> p = NA \<and> set xs \<subseteq> {NA}"
proof (induction xs arbitrary: p)
  case Nil
  then show ?case by simp
next
  case (Cons x xs)
  show ?case
  proof (cases "xs = []")
    case True
    with Cons.prems show ?thesis by (cases "x = NA") (simp_all add: isna_def)
  next
    case False
    show ?thesis
    proof (cases "x = NA")
      case True
      with Cons.prems False have "last (ffill_from p xs) = NA"
        by (simp add: isna_def ffill_from_Nil_iff)
      from Cons.IH [OF False this] True show ?thesis by simp
    next
      case x: False
      with Cons.prems False have "last (ffill_from x xs) = NA"
        by (simp add: isna_def ffill_from_Nil_iff)
      from Cons.IH [OF False this] x show ?thesis by simp
    qed
  qed
qed

lemma bfill_has_NA: "NA \<in> set (bfill ys) \<Longrightarrow> ys \<noteq> [] \<and> last ys = NA"
proof (induction ys)
  case Nil
  then show ?case by simp
next
  case (Cons y ys)
  then show ?case
    by (cases ys) (auto simp: Let_def isna_def split: if_splits list.splits)
qed

lemma filled_remaining_all_NA:
  assumes "NA \<in> set (bfill (ffill vs))"
  shows "set vs \<subseteq> {NA}"
proof -
  from bfill_has_NA [OF assms] have ne: "ffill vs \<noteq> []" and l: "last (ffill vs) = NA"
    by simp_all
  from ne have "vs \<noteq> []" by (auto simp: ffill_def)
  with l show ?thesis using ffill_from_last [of vs NA] by (simp add: ffill_def)
qed

lemma isna_sum_pos: "0 < isna_sum vs \<longleftrightarrow> NA \<in> set vs"
  by (induction vs) (auto simp: isna_sum_def isna_def)

lemma isna_sum_zero: "isna_sum vs = 0 \<longleftrightarrow> NA \<notin> set vs"
  using isna_sum_pos [of vs] by auto

lemma filled_no_text:
  assumes "0 < isna_sum (bfill (ffill vs))"
  shows "\<not> list_ex is_text (bfill (ffill vs))"
proof -
  from assms have "set vs \<subseteq> {NA}" by (simp add: isna_sum_pos filled_remaining_all_NA)
  with set_ffill_from [of NA vs] have "set (ffill vs) \<subseteq> {NA}" by (auto simp: ffill_def)
  with set_bfill [of "ffill vs"] have "set (bfill (ffill vs)) \<subseteq> {NA}" by auto
  then show ?thesis by (auto simp: list_ex_iff is_text_def)
qed

lemma mask_select_Nil [simp]: "mask_select keep [] = []" "mask_select [] xs = []"
  by (simp_all add: mask_select_def)

lemma mask_select_Cons [simp]:
  "mask_select (k # keep) (x # xs) = (if k then x # mask_select keep xs else mask_select keep xs)"
  by (simp add: mask_select_def)

lemma mask_select_nths: "mask_select keep xs = nths xs {i. i < length keep \<and> keep ! i}"
proof (induction xs arbitrary: keep)
  case Nil
  then show ?case by simp
next
  case (Cons x xs)
  show ?case
  proof (cases keep)
    case Nil
    then show ?thesis by simp
  next
    case (Cons k ks)
    have "{j. Suc j \<in> {i. i < length (k # ks) \<and> (k # ks) ! i}} = {i. i < length ks \<and> ks ! i}"
      by auto
    with Cons Cons.IH [of ks] show ?thesis
      by (simp add: nths_Cons)
  qed
qed

lemma mask_select_map_self: "mask_select (map P xs) xs = filter P xs"
  by (induction xs) auto

lemma length_mask_select_le: "length (mask_select keep xs) \<le> length xs"
  by (simp add: mask_select_def) (metis length_filter_le length_zip min.cobounded1 order_trans)

lemma mask_select_all:
  "length xs = length keep \<Longrightarrow> list_all id keep \<Longrightarrow> mask_select keep xs = xs"
proof (induction xs arbitrary: keep)
  case Nil
  then show ?case by simp
next
  case (Cons x xs)
  then show ?case by (cases keep) auto
qed

lemma mask_select_none: "\<not> list_ex id keep \<Longrightarrow> mask_select keep xs = []"
proof (induction xs arbitrary: keep)
  case Nil
  then show ?case by simp
next
  case (Cons x xs)
  then show ?case by (cases keep) auto
qed

lemma ffill_from_keeps:
  "i < length xs \<Longrightarrow> xs ! i \<noteq> NA \<Longrightarrow> ffill_from p xs ! i = xs ! i"
proof (induction xs arbitrary: p i)
  case Nil
  then show ?case by simp
next
  case (Cons x xs)
  then show ?case by (cases i) (simp_all add: isna_def)
qed

lemma bfill_keeps: "i < length xs \<Longrightarrow> xs ! i \<noteq> NA \<Longrightarrow> bfill xs ! i = xs ! i"
proof (induction xs arbitrary: i)
  case Nil
  then show ?case by simp
next
  case (Cons x xs)
  then show ?case by (cases i) (simp_all add: isna_def Let_def)
qed

lemma interp_from_keeps:
  "i < length xs \<Longrightarrow> xs ! i \<noteq> NA \<Longrightarrow> interp_from p xs ! i = xs ! i"
proof (induction p xs arbitrary: i rule: interp_from.induct)
  case (1 prev)
  then show ?case by simp
next
  case (2 prev v xs)
  then show ?case by (cases i) simp_all
next
  case (3 prev s xs)
  then show ?case by (cases i) simp_all
next
  case (4 prev xs)
  then show ?case by (cases i) (simp_all split: option.splits)
qed

lemma ffill_from_no_NA: "p \<noteq> NA \<Longrightarrow> NA \<notin> set (ffill_from p xs)"
  by (induction xs arbitrary: p) (auto simp: isna_def)

lemma ffill_no_NA: "vs \<noteq> [] \<Longrightarrow> hd vs \<noteq> NA \<Longrightarrow> NA \<notin> set (ffill vs)"
  by (cases vs) (auto simp: ffill_def isna_def ffill_from_no_NA)

lemma bfill_id: "NA \<notin> set xs \<Longrightarrow> bfill xs = xs"
  by (induction xs) (auto simp: Let_def isna_def)

section \<open>Frames\<close>

lemma getitem_Inr_iff: "(\<exists>vs. getitem df c = Inr vs) \<longleftrightarrow> c \<in> set (columns df)"
  by (induction df) (auto simp: getitem_def columns_def split: option.splits)

lemma getitem_setitem:
  "c \<in> set (columns df) \<Longrightarrow> getitem (setitem df c vs) c = Inr vs"
  by (induction df) (auto simp: getitem_def setitem_def columns_def)

lemma columns_setitem: "columns (setitem df c vs) = columns df"
  by (induction df) (auto simp: columns_def setitem_def)

lemma columns_boolean_index: "columns (boolean_index df keep) = columns df"
  by (simp add: columns_def boolean_index_def comp_def)

lemma getitem_boolean_index:
  "getitem df c = Inr vs \<Longrightarrow> getitem (boolean_index df keep) c = Inr (mask_select keep vs)"
  by (induction df) (auto simp: getitem_def boolean_index_def split: option.splits if_splits)

lemma nrows_Cons [simp]: "nrows (col # df) = length (cells col)"
  by (simp add: nrows_def)

lemma wf_frame_length: "wf_frame df \<Longrightarrow> col \<in> set df \<Longrightarrow> length (cells col) = nrows df"
  by (cases df) (auto simp: wf_frame_def list_all_iff)

lemma getitem_in: "getitem df c = Inr vs \<Longrightarrow> \<exists>col\<in>set df. cname col = c \<and> cells col = vs"
  by (auto simp: getitem_def find_Some_iff split: option.splits)

lemma getitem_length: "wf_frame df \<Longrightarrow> getitem df c = Inr vs \<Longrightarrow> length vs = nrows df"
  using getitem_in wf_frame_length by blast

lemma getitem_unique:
  "distinct (map cname df) \<Longrightarrow> getitem df c = Inr vs \<Longrightarrow> col \<in> set df \<Longrightarrow> cname col = c
     \<Longrightarrow> cells col = vs"
proof (induction df)
  case Nil
  then show ?case by simp
next
  case (Cons a df)
  show ?case
  proof (cases "cname a = c")
    case True
    with Cons.prems have "cells a = vs" by (simp add: getitem_def)
    moreover from True Cons.prems have "col = a" by (auto simp: image_iff)
    ultimately show ?thesis by simp
  next
    case False
    with Cons.prems have "getitem df c = Inr vs" "col \<in> set df" "distinct (map cname df)"
      by (auto simp: getitem_def)
    with Cons.IH Cons.prems show ?thesis by simp
  qed
qed

lemma setitem_same:
  assumes "wf_frame df" "getitem df c = Inr vs"
  shows "setitem df c vs = df"
proof -
  have "(if cname col = c then col\<lparr>cells := vs\<rparr> else col) = col" if "col \<in> set df" for col
    using getitem_unique [of df c vs col] assms that by (auto simp: wf_frame_def)
  then show ?thesis by (simp add: setitem_def map_idI)
qed

lemma boolean_index_all:
  assumes "wf_frame df" "length keep = nrows df" "list_all id keep"
  shows "boolean_index df keep = df"
proof -
  have "col\<lparr>cells := mask_select keep (cells col)\<rparr> = col" if "col \<in> set df" for col
    using wf_frame_length [OF assms(1) that] assms(2,3) by (simp add: mask_select_all)
  then show ?thesis by (simp add: boolean_index_def map_idI)
qed

lemma keep_index_set:
  "{i. i < length filled \<and> map (\<lambda>v. \<not> isna v) filled ! i}
     = {i. i < length filled \<and> \<not> isna (filled ! i)}"
  by auto

lemma dropped_frame_nths:
  "boolean_index (setitem df c filled) (map (\<lambda>v. \<not> isna v) filled)
     = map (\<lambda>col. col\<lparr>cells := nths (if cname col = c then filled else cells col)
                                   {i. i < length filled \<and> \<not> isna (filled ! i)}\<rparr>) df"
  by (simp add: boolean_index_def setitem_def mask_select_nths keep_index_set)

lemma nrows_boolean_index_le:
  "nrows (boolean_index df keep) \<le> nrows df"
  by (cases df) (simp_all add: boolean_index_def length_mask_select_le nrows_def)

lemma wf_frame_setitem:
  assumes "wf_frame df" "length vs = nrows df"
  shows "wf_frame (setitem df c vs)"
proof -
  have names: "map cname (setitem df c vs) = map cname df"
    by (induction df) (auto simp: setitem_def)
  have "length (cells col) = nrows df" if "col \<in> set (setitem df c vs)" for col
    using that assms wf_frame_length [OF assms(1)] by (auto simp: setitem_def)
  moreover have "setitem df c vs \<noteq> [] \<Longrightarrow> hd (setitem df c vs) \<in> set (setitem df c vs)"
    by simp
  ultimately have "list_all (\<lambda>col. length (cells col) = length (cells (hd (setitem df c vs))))
                     (setitem df c vs)"
    by (cases "setitem df c vs = []") (auto simp: list_all_iff)
  with names assms(1) show ?thesis by (simp add: wf_frame_def)
qed

lemma nrows_setitem:
  assumes "wf_frame df" "length vs = nrows df"
  shows "nrows (setitem df c vs) = nrows df"
  using assms by (cases df) (simp_all add: setitem_def nrows_def)

section \<open>The cleaner never fails and leaves no gap\<close>

lemma isna_sum_filter: "isna_sum (filter (\<lambda>v. \<not> isna v) vs) = 0"
  by (induction vs) (auto simp: isna_sum_def)

lemma clean_data_Inr:assumes "c \<in> set (columns df)"
  shows "\<exists>out. clean_data df c = Inr out"
proof -
  from assms obtain vs where vs: "getitem df c = Inr vs"
    using getitem_Inr_iff by blast
  let ?filled = "bfill (ffill vs)"
  have drop: "\<exists>out. dropna (setitem df c vs') c = Inr out" for vs'
    using getitem_setitem [OF assms, of vs'] by (simp add: dropna_def)
  show ?thesis
  proof (cases "0 < isna_sum vs")
    case False
    with vs show ?thesis by (simp add: clean_data_def)
  next
    case True
    show ?thesis
    proof (cases "0 < isna_sum ?filled")
      case False
      with vs True drop [of ?filled] show ?thesis
        by (simp add: clean_data_def)
    next
      case rem: True
      then have "interpolate ?filled = Inr (interp_from None ?filled)"
        using filled_no_text [of vs] by (simp add: interpolate_def)
      with vs True rem drop [of "interp_from None ?filled"] show ?thesis
        by (simp add: clean_data_def)
    qed
  qed
qed

lemma clean_data_shape:assumes wf: "wf_frame df" and clean: "clean_data df c = Inr out"
  shows "\<exists>vs filled. getitem df c = Inr vs \<and> length filled = length vs
           \<and> (\<forall>i<length vs. vs ! i \<noteq> NA \<longrightarrow> filled ! i = vs ! i)
           \<and> out = boolean_index (setitem df c filled) (map (\<lambda>v. \<not> isna v) filled)"
proof -
  from clean obtain vs where vs: "getitem df c = Inr vs"
    by (cases "getitem df c") (simp_all add: clean_data_def)
  then have c: "c \<in> set (columns df)" using getitem_Inr_iff by blast
  let ?filled = "bfill (ffill vs)"
  have keeps: "\<forall>i<length vs. vs ! i \<noteq> NA \<longrightarrow> ?filled ! i = vs ! i"
    by (simp add: bfill_keeps ffill_from_keeps ffill_def length_ffill_from)
  have drop: "dropna (setitem df c vs') c
                = Inr (boolean_index (setitem df c vs') (map (\<lambda>v. \<not> isna v) vs'))" for vs'
    using getitem_setitem [OF c, of vs'] by (simp add: dropna_def)
  show ?thesis
  proof (cases "0 < isna_sum vs")
    case False
    with vs clean have out: "out = df" by (simp add: clean_data_def)
    from False have "list_all id (map (\<lambda>v. \<not> isna v) vs)"
      by (auto simp: isna_sum_zero list_all_iff isna_def)
    then have "boolean_index df (map (\<lambda>v. \<not> isna v) vs) = df"
      using boolean_index_all [OF wf] getitem_length [OF wf vs] by simp
    with out vs setitem_same [OF wf vs] show ?thesis
      by (intro exI [of _ vs]) simp
  next
    case True
    show ?thesis
    proof (cases "0 < isna_sum ?filled")
      case False
      with vs True clean drop [of ?filled]
      have "out = boolean_index (setitem df c ?filled) (map (\<lambda>v. \<not> isna v) ?filled)"
        by (simp add: clean_data_def Let_def)
      with vs keeps show ?thesis
        by (intro exI [of _ vs] exI [of _ ?filled]) (simp add: length_bfill length_ffill)
    next
      case rem: True
      let ?ip = "interp_from None ?filled"
      from rem have "interpolate ?filled = Inr ?ip"
        using filled_no_text [of vs] by (simp add: interpolate_def)
      with vs True rem clean drop [of ?ip]
      have out: "out = boolean_index (setitem df c ?ip) (map (\<lambda>v. \<not> isna v) ?ip)"
        by (simp add: clean_data_def Let_def)
      have "\<forall>i<length vs. vs ! i \<noteq> NA \<longrightarrow> ?ip ! i = vs ! i"
        using keeps by (simp add: interp_from_keeps length_bfill length_ffill)
      with vs out show ?thesis
        by (intro exI [of _ vs] exI [of _ ?ip])
           (simp add: length_bfill length_ffill length_interp_from)
    qed
  qed
qed

section \<open>What the column identifier returns\<close>

lemma first_col_Some:
  "first_col P df = Some c \<Longrightarrow> c \<in> set (columns df) \<and> P (lower c)"
  by (auto simp: first_col_def columns_def find_Some_iff)

lemma numeric_columns_subset: "set (numeric_columns df) \<subseteq> set (columns df)"
  by (auto simp: numeric_columns_def columns_def)

lemma remove_date_subset: "set (remove_date d cols) \<subseteq> set cols"
  by (cases d) (simp_all add: remove_date_def set_remove1_subset)

lemma hd_filter_in: "0 < length (filter P xs) \<Longrightarrow> hd (filter P xs) \<in> set xs \<and> P (hd (filter P xs))"
proof -
  assume "0 < length (filter P xs)"
  then have "filter P xs \<noteq> []" by simp
  then have "hd (filter P xs) \<in> set (filter P xs)" by (rule hd_in_set)
  then show ?thesis by simp
qed

lemma identify_columns_in_columns:
  assumes "identify_columns df = (d, Some c)"
  shows "c \<in> set (columns df)"
proof -
  let ?P = "\<lambda>l. any_term_in flow_terms l \<and> \<not> py_in ''longitud'' l \<and> \<not> py_in ''latitud'' l"
  show ?thesis
  proof (cases "first_col ?P df")
    case (Some c')
    with assms have "c' = c" by (simp add: identify_columns_def)
    with Some show ?thesis using first_col_Some [of ?P df c] by simp
  next
    case None
    let ?cols = "remove_date (first_col (any_term_in date_terms) df) (numeric_columns df)"
    let ?Q = "\<lambda>col. lower col \<notin> set exclude"
    from None assms have "0 < length (filter ?Q ?cols)" and "c = hd (filter ?Q ?cols)"
      by (auto simp: identify_columns_def Let_def split: if_splits)
    with hd_filter_in [of ?Q ?cols] have "c \<in> set ?cols" by simp
    with remove_date_subset numeric_columns_subset show ?thesis by blast
  qed
qed

lemma dl_identify_columns_in_columns:
  assumes "dl_identify_columns df = (d, Some c)"
  shows "c \<in> set (columns df)"
proof (cases "first_col (any_term_in dl_flow_terms) df")
  case (Some c')
  with assms have "c' = c" by (simp add: dl_identify_columns_def)
  with Some show ?thesis using first_col_Some [of "any_term_in dl_flow_terms" df c] by simp
next
  case None
  let ?cols = "remove_date (first_col (any_term_in dl_date_terms) df) (numeric_columns df)"
  from None assms have "0 < length ?cols" and "c = hd ?cols"
    by (auto simp: dl_identify_columns_def Let_def split: if_splits)
  then have "c \<in> set ?cols" by simp
  with remove_date_subset numeric_columns_subset show ?thesis by blast
qed

lemma coordinate_name_no_match:
  assumes "l \<in> set exclude"
  shows "\<not> (any_term_in flow_terms l \<and> \<not> py_in ''longitud'' l \<and> \<not> py_in ''latitud'' l)"
proof -
  from assms consider "l = ''longitud''" | "l = ''latitud''" | "l = ''lon''" | "l = ''lat''"
    | "l = ''x''" | "l = ''y''"
    by (auto simp: exclude_def)
  then show ?thesis
    by cases (simp_all add: any_term_in_def flow_terms_def m3_per_s_def)
qed

lemma identify_columns_not_coordinate:
  assumes "identify_columns df = (d, Some c)"
  shows "lower c \<notin> set exclude"
proof -
  let ?P = "\<lambda>l. any_term_in flow_terms l \<and> \<not> py_in ''longitud'' l \<and> \<not> py_in ''latitud'' l"
  show ?thesis
  proof (cases "first_col ?P df")
    case (Some c')
    with assms have "c' = c" by (simp add: identify_columns_def)
    with Some have "?P (lower c)" using first_col_Some [of ?P df c] by simp
    then show ?thesis using coordinate_name_no_match [of "lower c"] by blast
  next
    case None
    let ?cols = "remove_date (first_col (any_term_in date_terms) df) (numeric_columns df)"
    let ?Q = "\<lambda>col. lower col \<notin> set exclude"
    from None assms have "0 < length (filter ?Q ?cols)" and "c = hd (filter ?Q ?cols)"
      by (auto simp: identify_columns_def Let_def split: if_splits)
    with hd_filter_in [of ?Q ?cols] show ?thesis by simp
  qed
qed

lemma identify_columns_valor:
  "identify_columns [\<lparr>cname = ''longitud'', cells = a\<rparr>, \<lparr>cname = ''latitud'', cells = b\<rparr>,
                     \<lparr>cname = ''valor'', cells = c\<rparr>] = (None, Some ''valor'')"
  by (simp add: identify_columns_def first_col_def any_term_in_def date_terms_def
      flow_terms_def lower_def lower_char_def m3_per_s_def)

section \<open>Dates, the window and the chart\<close>

lemmas plot_ops =
  create_plot_def process_dates_def filter_window_def window_mask_def all_nat_def
  column_stats_def numbers_of_def Timestamp_def days_from_civil_def day_ns_def date_range_def

lemma length_date_range [simp]: "length (date_range start n) = n"
  by (simp add: date_range_def)

lemma nth_date_range: "i < n \<Longrightarrow> date_range start n ! i = Some (start + int i * day_ns)"
  by (simp add: date_range_def)

lemma boolean_index_none:
  "\<not> list_ex id keep \<Longrightarrow> nrows (boolean_index df keep) = 0"
  by (cases df) (simp_all add: boolean_index_def nrows_def mask_select_none)

lemma window_mask_all_nat: "all_nat dates \<Longrightarrow> \<not> list_ex id (window_mask dates)"
  by (auto simp: all_nat_def window_mask_def list_all_iff list_ex_iff)

lemma filter_window_cases:
  "filter_window df dates =
     (if nrows (boolean_index df (window_mask dates)) = 0 then (df, dates)
      else (boolean_index df (window_mask dates), mask_select (window_mask dates) dates))"
  using boolean_index_none [OF window_mask_all_nat, of dates df]
  by (auto simp: filter_window_def Let_def)

section \<open>Runs of the pipeline\<close>

lemma pipeline_cases:
  assumes ident: "\<And>df d c. identify df = (d, Some c) \<Longrightarrow> c \<in> set (columns df)"
    and r: "r = pipeline identify to_datetime data_file load"
  shows "(exit_status r = Inr 1 \<and> cleaned_csv r = None \<and> plot_png r = None)
       \<or> (exit_status r = Inr 0 \<and> (\<exists>t. cleaned_csv r = Some t) \<and> (\<exists>c. plot_png r = Some c))
       \<or> ((\<exists>e. exit_status r = Inl e) \<and> (\<exists>t. cleaned_csv r = Some t) \<and> plot_png r = None)"
proof (cases data_file)
  case None
  with r show ?thesis by (simp add: pipeline_def)
next
  case (Some filepath)
  show ?thesis
  proof (cases "load filepath")
    case None
    with Some r show ?thesis by (simp add: pipeline_def)
  next
    case loaded: (Some df)
    obtain d sc where id: "identify df = (d, sc)" by (cases "identify df")
    show ?thesis
    proof (cases sc)
      case None
      with Some loaded id r show ?thesis by (simp add: pipeline_def)
    next
      case col: (Some c)
      with id ident have "c \<in> set (columns df)" by blast
      then obtain df_clean where clean: "clean_data df c = Inr df_clean"
        using clean_data_Inr by blast
      show ?thesis
      proof (cases "create_plot to_datetime df_clean d c")
        case (Inl e)
        with Some loaded id col clean r show ?thesis by (simp add: pipeline_def)
      next
        case (Inr ch)
        with Some loaded id col clean r show ?thesis by (simp add: pipeline_def)
      qed
    qed
  qed
qed

lemma flag_frame_runs:
  "main example_to_datetime (Some data_csv) load_flag_frame
     = \<lparr>exit_status = Inl ValueError, cleaned_csv = Some flag_frame, plot_png = None\<rparr>
   \<and> dl_main example_to_datetime (Some data_csv) load_flag_frame
     = \<lparr>exit_status = Inl ValueError, cleaned_csv = Some flag_frame, plot_png = None\<rparr>"
proof -
  have id: "identify_columns flag_frame = (Some ''fecha'', Some ''quality'')"
    by (simp add: identify_columns_def flag_frame_def identify_ops)
  have dl_id: "dl_identify_columns flag_frame = (Some ''fecha'', Some ''quality'')"
    by (simp add: dl_identify_columns_def flag_frame_def identify_ops)
  have clean: "clean_data flag_frame ''quality'' = Inr flag_frame"
    by (simp add: clean_data_def flag_frame_def frame_ops)
  have plot: "create_plot example_to_datetime flag_frame (Some ''fecha'') ''quality''
                = Inl ValueError"
    by (simp add: plot_ops frame_ops flag_frame_def example_to_datetime_def)
  from id dl_id clean plot show ?thesis
    by (simp add: main_def dl_main_def pipeline_def load_flag_frame_def)
qed

section \<open>The chains of read attempts\<close>

lemma load_data_from_file_text:
  assumes "\<not> suffix ''.xlsx'' filepath" "\<not> suffix ''.xls'' filepath"
  shows "load_data_from_file load_excel read_csv filepath =
     (case read_csv filepath Comma UTF8 of
        Some df \<Rightarrow> (Inr df, take 1 four_attempts)
      | None \<Rightarrow>
          (case read_csv filepath Comma Latin1 of
             Some df \<Rightarrow> (Inr df, take 2 four_attempts)
           | None \<Rightarrow>
               (case read_csv filepath Tab UTF8 of
                  Some df \<Rightarrow> (Inr df, take 3 four_attempts)
                | None \<Rightarrow>
                    (case read_csv filepath Whitespace UTF8 of
                       Some df \<Rightarrow> (Inr df, four_attempts)
                     | None \<Rightarrow> (Inl ValueError, four_attempts)))))"
  using assms by (simp add: load_data_from_file_def four_attempts_def split: option.splits)

lemma load_and_process_data_text:
  assumes "\<not> suffix ''.xlsx'' filepath"
  shows "load_and_process_data read_excel read_csv filepath =
     (case read_csv filepath Comma UTF8 of
        Some df \<Rightarrow> (Some df, take 1 four_attempts)
      | None \<Rightarrow>
          (case read_csv filepath Comma Latin1 of
             Some df \<Rightarrow> (Some df, take 2 four_attempts)
           | None \<Rightarrow> (None, take 2 four_attempts)))"
  using assms by (simp add: load_and_process_data_def four_attempts_def split: option.splits)

section \<open>The written table read back\<close>


























lemma scenario_file_text:
  "to_csv example_float_repr scenario_cleaned
     = ''fecha,caudal_m3s'' @ [LF] @ ''1961-01-01,12.5'' @ [LF] @ ''1961-01-02,12.5'' @ [LF]
       @ ''1961-01-03,12.5'' @ [LF] @ ''1961-01-04,14.0'' @ [LF]"
  by (simp add: to_csv_def csv_rows_def scenario_cleaned_def columns_def nrows_def
      cell_field_def cell_at_def example_float_repr_def encode_row_def encode_field_def
      needs_quote_def upt_rec)

lemma scenario_file_read:
  "load_data no_xlsx example_parse_float example_files OUTPUT_CSV = Some scenario_cleaned"
proof -
  have "pd_read_csv example_parse_float (to_csv example_float_repr scenario_cleaned)
          = Some scenario_cleaned"
    unfolding scenario_file_text
    by (simp add: pd_read_csv_def infer_cells_def na_values_def example_parse_float_def
        field_at_def upt_rec scenario_cleaned_def del: not_None_eq)
  moreover have "\<not> suffix ''.xlsx'' OUTPUT_CSV"
    by (simp add: OUTPUT_CSV_def suffix_to_prefix)
  ultimately show ?thesis
    by (simp add: load_data_def example_files_def)
qed

lemma station_file_text:
  "to_csv example_float_repr station_frame
     = [DQUOTE] @ ''estacion, rio'' @ [DQUOTE] @ '',caudal_m3s'' @ [LF]
       @ [DQUOTE] @ ''Lago '' @ [DQUOTE, DQUOTE] @ ''Rinihue'' @ [DQUOTE, DQUOTE, DQUOTE]
       @ '',12.5'' @ [LF]
       @ [DQUOTE] @ ''desague'' @ [LF] @ ''norte'' @ [DQUOTE] @ '',14.0'' @ [LF]"
  by (simp add: to_csv_def csv_rows_def station_frame_def columns_def nrows_def
      cell_field_def cell_at_def example_float_repr_def encode_row_def encode_field_def
      needs_quote_def upt_rec)

lemma station_file_read:
  "pd_read_csv example_parse_float (to_csv example_float_repr station_frame) = Some station_frame"
  unfolding station_file_text
  by (simp add: pd_read_csv_def infer_cells_def na_values_def example_parse_float_def
      field_at_def upt_rec station_frame_def del: not_None_eq)

section \<open>The claims\<close>

text \<open>
  Claim C1, as the code has it.  For the four-row frame with header \<open>fecha,caudal_m3s\<close> and
  value cells missing, 12.5, missing, 14.0, the value column is the identified one and
  \<open>clean_data\<close> returns the value cells 12.5, 12.5, 12.5, 14.0 with all four rows kept: the
  forward fill closes the gap in the third row with 12.5 before any interpolation runs.
\<close>

theorem clean_data_scenario:
  "identify_columns scenario_frame = (Some ''fecha'', Some ''caudal_m3s'')
   \<and> clean_data scenario_frame ''caudal_m3s'' = Inr scenario_cleaned
   \<and> getitem scenario_cleaned ''caudal_m3s'' = Inr [Num 12.5, Num 12.5, Num 12.5, Num 14]
   \<and> nrows scenario_cleaned = nrows scenario_frame"
proof -
  have "identify_columns scenario_frame = (Some ''fecha'', Some ''caudal_m3s'')"
    by (simp add: identify_columns_def scenario_frame_def identify_ops)
  moreover have "clean_data scenario_frame ''caudal_m3s'' = Inr scenario_cleaned"
    by (simp add: clean_data_def scenario_frame_def scenario_cleaned_def frame_ops)
  moreover have "getitem scenario_cleaned ''caudal_m3s''
                   = Inr [Num 12.5, Num 12.5, Num 12.5, Num 14]"
    by (simp add: scenario_cleaned_def getitem_def)
  moreover have "nrows scenario_cleaned = nrows scenario_frame"
    by (simp add: scenario_cleaned_def scenario_frame_def nrows_def)
  ultimately show ?thesis by simp
qed

text \<open>
  Claim C1 as stated fails: the cleaned value cells are not 12.5, 12.5, 13.25, 14.0.
\<close>

theorem clean_data_scenario_not_interpolated:
  "clean_data scenario_frame ''caudal_m3s'' = Inr scenario_cleaned
   \<and> getitem scenario_cleaned ''caudal_m3s'' \<noteq> Inr [Num 12.5, Num 12.5, Num 13.25, Num 14]"
  by (simp add: clean_data_def scenario_frame_def scenario_cleaned_def frame_ops)

text \<open>
  Claim C2 at the frame with numeric columns \<open>longitud\<close>, \<open>latitud\<close>, \<open>valor\<close>:
  \<open>identify_columns\<close> of \<open>download_and_plot.py\<close> returns \<open>longitud\<close> as the value column,
  a coordinate column that is not the only numeric one.  (\<open>identify_columns\<close> of
  \<open>plot_1960_2025.py\<close> never returns a coordinate column and returns \<open>valor\<close> here:
  \<open>identify_columns_not_coordinate\<close>, \<open>identify_columns_valor\<close>.)
\<close>

theorem dl_identify_columns_coordinate:
  "dl_identify_columns coords_frame = (None, Some ''longitud'')"
  by (simp add: dl_identify_columns_def coords_frame_def first_col_def any_term_in_def
      dl_date_terms_def dl_flow_terms_def lower_def lower_char_def m3_per_s_def remove_date_def
      numeric_columns_def is_number_col_def is_text_def)

text \<open>
  Claim C6.  For every frame and every value column that either column identifier
  returns for it, \<open>clean_data\<close> returns a frame and raises nothing; a frame without rows
  is no exception.
\<close>

theorem clean_data_total:
  assumes "identify_columns df = (date_col, Some streamflow_col)
             \<or> dl_identify_columns df = (date_col, Some streamflow_col)"
  shows "\<exists>out. clean_data df streamflow_col = Inr out"
  using assms identify_columns_in_columns dl_identify_columns_in_columns clean_data_Inr
  by blast

theorem clean_data_total_witness:
  "identify_columns empty_frame = (Some ''fecha'', Some ''caudal_m3s'')
   \<and> (\<exists>out. clean_data empty_frame ''caudal_m3s'' = Inr out)"
proof -
  have h: "identify_columns empty_frame = (Some ''fecha'', Some ''caudal_m3s'')"
    by (simp add: identify_columns_def empty_frame_def identify_ops)
  then have "identify_columns empty_frame = (Some ''fecha'', Some ''caudal_m3s'')
               \<or> dl_identify_columns empty_frame = (Some ''fecha'', Some ''caudal_m3s'')"
    by simp
  from clean_data_total [OF this] h show ?thesis by simp
qed

text \<open>
  Claim C7.  For every frame and value column, the frame that \<open>clean_data\<close> returns has no
  missing value in the value column, the columns of the input, and at most as many rows.
  Its rows are rows of the input in their order: one set \<open>I\<close> of row positions selects the
  cells of every column, and the value column is the input's with gaps filled, every
  value that was present unchanged.
\<close>

theorem clean_data_invariants:
  assumes wf: "wf_frame df" and clean: "clean_data df streamflow_col = Inr out"
  shows "(\<exists>vs'. getitem out streamflow_col = Inr vs' \<and> isna_sum vs' = 0)
       \<and> columns out = columns df
       \<and> nrows out \<le> nrows df
       \<and> (\<exists>vs filled I.
             getitem df streamflow_col = Inr vs \<and> length filled = length vs
             \<and> (\<forall>i<length vs. vs ! i \<noteq> NA \<longrightarrow> filled ! i = vs ! i)
             \<and> out = map (\<lambda>col. col\<lparr>cells := nths (if cname col = streamflow_col then filled
                                                      else cells col) I\<rparr>) df)"
proof -
  from clean_data_shape [OF wf clean] obtain vs filled where
    vs: "getitem df streamflow_col = Inr vs" and len: "length filled = length vs"
    and keeps: "\<forall>i<length vs. vs ! i \<noteq> NA \<longrightarrow> filled ! i = vs ! i"
    and out: "out = boolean_index (setitem df streamflow_col filled)
                      (map (\<lambda>v. \<not> isna v) filled)"
    by blast
  from vs have c: "streamflow_col \<in> set (columns df)" using getitem_Inr_iff by blast
  have "getitem out streamflow_col = Inr (filter (\<lambda>v. \<not> isna v) filled)"
    unfolding out using getitem_boolean_index [OF getitem_setitem [OF c, of filled]]
    by (simp add: mask_select_map_self)
  then have no_missing: "\<exists>vs'. getitem out streamflow_col = Inr vs' \<and> isna_sum vs' = 0"
    by (simp add: isna_sum_filter)
  have cols: "columns out = columns df"
    unfolding out by (simp add: columns_boolean_index columns_setitem)
  have "nrows out \<le> nrows (setitem df streamflow_col filled)"
    unfolding out by (rule nrows_boolean_index_le)
  also have "\<dots> = nrows df"
    using wf len getitem_length [OF wf vs] by (simp add: nrows_setitem)
  finally have rows: "nrows out \<le> nrows df" .
  have order: "\<exists>vs filled I.
      getitem df streamflow_col = Inr vs \<and> length filled = length vs
      \<and> (\<forall>i<length vs. vs ! i \<noteq> NA \<longrightarrow> filled ! i = vs ! i)
      \<and> out = map (\<lambda>col. col\<lparr>cells := nths (if cname col = streamflow_col then filled
                                               else cells col) I\<rparr>) df"
  proof (intro exI conjI)
    show "getitem df streamflow_col = Inr vs" by (rule vs)
    show "length filled = length vs" by (rule len)
    show "\<forall>i<length vs. vs ! i \<noteq> NA \<longrightarrow> filled ! i = vs ! i" by (rule keeps)
    show "out = map (\<lambda>col. col\<lparr>cells := nths (if cname col = streamflow_col then filled
                                                   else cells col)
                                     {i. i < length filled \<and> \<not> isna (filled ! i)}\<rparr>) df"
      unfolding out by (rule dropped_frame_nths)
  qed
  show ?thesis
    using no_missing cols rows order by (intro conjI)
qed

theorem clean_data_invariants_witness:
  "wf_frame all_missing_frame
   \<and> clean_data all_missing_frame ''caudal_m3s'' = Inr all_missing_cleaned
   \<and> (\<exists>vs'. getitem all_missing_cleaned ''caudal_m3s'' = Inr vs' \<and> isna_sum vs' = 0)
   \<and> columns all_missing_cleaned = columns all_missing_frame
   \<and> nrows all_missing_cleaned \<le> nrows all_missing_frame"
proof -
  have wf: "wf_frame all_missing_frame"
    by (simp add: all_missing_frame_def wf_frame_def)
  have clean: "clean_data all_missing_frame ''caudal_m3s'' = Inr all_missing_cleaned"
    by (simp add: clean_data_def all_missing_frame_def all_missing_cleaned_def frame_ops)
  from clean_data_invariants [OF wf clean] wf clean show ?thesis by simp
qed

text \<open>
  Claim C8.  When the value column is not empty and its first and last cells are present,
  \<open>clean_data\<close> returns a frame with no missing value in the value column and with
  exactly the rows of the input.
\<close>

theorem clean_data_interior_gaps:
  assumes wf: "wf_frame df" and vs: "getitem df streamflow_col = Inr vs"
    and ne: "vs \<noteq> []" and first: "hd vs \<noteq> NA" and last: "last vs \<noteq> NA"
  shows "\<exists>out vs'. clean_data df streamflow_col = Inr out \<and> nrows out = nrows df
           \<and> getitem out streamflow_col = Inr vs' \<and> isna_sum vs' = 0"
proof (cases "0 < isna_sum vs")
  case False
  then have zero: "isna_sum vs = 0" by simp
  with vs have "clean_data df streamflow_col = Inr df" by (simp add: clean_data_def)
  with vs zero show ?thesis by (intro exI [of _ df] exI [of _ vs]) simp
next
  case True
  let ?filled = "bfill (ffill vs)"
  from vs have c: "streamflow_col \<in> set (columns df)" using getitem_Inr_iff by blast
  have no_NA: "NA \<notin> set ?filled"
    using ffill_no_NA [OF ne first] by (simp add: bfill_id)
  then have zero: "isna_sum ?filled = 0" by (simp add: isna_sum_zero)
  let ?df' = "setitem df streamflow_col ?filled"
  let ?keep = "map (\<lambda>v. \<not> isna v) ?filled"
  have get': "getitem ?df' streamflow_col = Inr ?filled" using c by (rule getitem_setitem)
  have len: "length ?filled = nrows df"
    using getitem_length [OF wf vs] by (simp add: length_bfill length_ffill)
  have all: "list_all id ?keep" using no_NA by (auto simp: list_all_iff isna_def)
  have wf': "wf_frame ?df'" using wf len by (rule wf_frame_setitem)
  have same: "boolean_index ?df' ?keep = ?df'"
    using wf' by (rule boolean_index_all) (simp_all add: all len nrows_setitem [OF wf len])
  have clean: "clean_data df streamflow_col = Inr ?df'"
    using vs True zero get' same by (simp add: clean_data_def dropna_def Let_def)
  have rows: "nrows ?df' = nrows df" using wf len by (rule nrows_setitem)
  from clean rows get' zero show ?thesis
    by (intro exI [of _ ?df'] exI [of _ ?filled]) simp
qed

theorem clean_data_interior_gaps_witness:
  "wf_frame interior_frame
   \<and> getitem interior_frame ''caudal_m3s'' = Inr [Num 12.5, NA, Num 14]
   \<and> clean_data interior_frame ''caudal_m3s'' = Inr interior_cleaned
   \<and> (\<exists>out vs'. clean_data interior_frame ''caudal_m3s'' = Inr out
          \<and> nrows out = nrows interior_frame
          \<and> getitem out ''caudal_m3s'' = Inr vs' \<and> isna_sum vs' = 0)"
proof -
  have wf: "wf_frame interior_frame"
    by (simp add: interior_frame_def wf_frame_def)
  have vs: "getitem interior_frame ''caudal_m3s'' = Inr [Num 12.5, NA, Num 14]"
    by (simp add: interior_frame_def getitem_def)
  have clean: "clean_data interior_frame ''caudal_m3s'' = Inr interior_cleaned"
    by (simp add: clean_data_def interior_frame_def interior_cleaned_def frame_ops)
  from clean_data_interior_gaps [OF wf vs] wf vs clean show ?thesis by simp
qed

text \<open>
  Claim C3, as the code has it.  Without a date column the generated dates are one per
  row, each a day after the one before.  \<open>create_plot\<close> of \<open>plot_1960_2025.py\<close> and of
  \<open>download_and_plot.py\<close> starts them at 1960-01-01; \<open>create_plot\<close> of
  \<open>extract_rinihue_streamflow.py\<close> starts them at 1960-01-01 for more than 20000 rows and
  at 1970-01-01 otherwise.
\<close>

theorem synthesized_dates_daily:
  "length (process_dates to_datetime df None) = nrows df
   \<and> (\<forall>i<nrows df. process_dates to_datetime df None ! i
                        = Some (Timestamp 1960 1 1 + int i * day_ns))
   \<and> (extract_date_col df = None \<longrightarrow>
        length (extract_dates to_datetime df) = nrows df
        \<and> (\<forall>i<nrows df. extract_dates to_datetime df ! i
               = Some ((if nrows df > 20000 then Timestamp 1960 1 1 else Timestamp 1970 1 1)
                        + int i * day_ns)))"
  by (simp add: process_dates_def extract_dates_def nth_date_range)

text \<open>
  Claim C3 as stated fails: for a one-row frame without a date column the dates that
  \<open>extract_rinihue_streamflow.py\<close> generates start at 1970-01-01.
\<close>

theorem extract_dates_start_1970:
  "extract_date_col coords_frame = None
   \<and> extract_dates example_to_datetime coords_frame = [Some (Timestamp 1970 1 1)]
   \<and> Timestamp 1970 1 1 \<noteq> Timestamp 1960 1 1"
  by (simp add: extract_dates_def extract_date_col_def coords_frame_def extract_date_terms_def
      any_term_in_def lower_def lower_char_def nrows_def date_range_def Timestamp_def
      days_from_civil_def day_ns_def)

theorem synthesized_dates_daily_witness:
  "extract_date_col coords_frame = None
   \<and> length (process_dates example_to_datetime coords_frame None) = nrows coords_frame
   \<and> process_dates example_to_datetime coords_frame None ! 0 = Some (Timestamp 1960 1 1)
   \<and> length (extract_dates example_to_datetime coords_frame) = nrows coords_frame
   \<and> extract_dates example_to_datetime coords_frame ! 0 = Some (Timestamp 1970 1 1)"
proof -
  have none: "extract_date_col coords_frame = None"
    by (simp add: extract_date_col_def coords_frame_def extract_date_terms_def any_term_in_def
        lower_def lower_char_def)
  have rows: "nrows coords_frame = 1"
    by (simp add: coords_frame_def nrows_def)
  from synthesized_dates_daily [of example_to_datetime coords_frame] none rows
  show ?thesis by simp
qed

text \<open>
  Claim C4, as the code has it.  A run of \<open>main\<close> ends in one of three ways: it returns 1
  and has written neither file; it returns 0 and has written both; or an exception ends
  it after the cleaned table was written and before the chart was.  The chart is never
  written without the cleaned table.
\<close>

theorem pipeline_outputs:
  assumes "r = main to_datetime data_file load \<or> r = dl_main to_datetime data_file load"
  shows "(exit_status r = Inr 1 \<and> cleaned_csv r = None \<and> plot_png r = None)
       \<or> (exit_status r = Inr 0 \<and> (\<exists>t. cleaned_csv r = Some t) \<and> (\<exists>c. plot_png r = Some c))
       \<or> ((\<exists>e. exit_status r = Inl e) \<and> (\<exists>t. cleaned_csv r = Some t) \<and> plot_png r = None)"
proof -
  from assms consider "r = pipeline identify_columns to_datetime data_file load"
    | "r = pipeline dl_identify_columns to_datetime data_file load"
    by (auto simp: main_def dl_main_def)
  then show ?thesis
  proof cases
    case 1
    show ?thesis
      by (rule pipeline_cases [OF identify_columns_in_columns 1])
  next
    case 2
    show ?thesis
      by (rule pipeline_cases [OF dl_identify_columns_in_columns 2])
  qed
qed

text \<open>
  Claim C4 as stated fails: on a file whose identified value column holds text, both
  scripts write the cleaned table and then raise while formatting the statistics, so
  exactly one of the two output files exists.
\<close>

theorem main_csv_without_chart:
  "main example_to_datetime (Some data_csv) load_flag_frame
     = \<lparr>exit_status = Inl ValueError, cleaned_csv = Some flag_frame, plot_png = None\<rparr>
   \<and> dl_main example_to_datetime (Some data_csv) load_flag_frame
     = \<lparr>exit_status = Inl ValueError, cleaned_csv = Some flag_frame, plot_png = None\<rparr>"
  by (rule flag_frame_runs)

theorem pipeline_outputs_witness:
  "exit_status (main example_to_datetime (Some data_csv) load_flag_frame) = Inl ValueError
   \<and> (\<exists>t. cleaned_csv (main example_to_datetime (Some data_csv) load_flag_frame) = Some t)
   \<and> plot_png (main example_to_datetime (Some data_csv) load_flag_frame) = None"
proof -
  have "exit_status (main example_to_datetime (Some data_csv) load_flag_frame) = Inl ValueError"
    using flag_frame_runs by simp
  with pipeline_outputs [of "main example_to_datetime (Some data_csv) load_flag_frame"
      example_to_datetime "Some data_csv" load_flag_frame]
  show ?thesis by auto
qed

text \<open>
  Claim C5, as the code has it.  For a path that is not an Excel file,
  \<open>load_data_from_file\<close> calls \<open>read_csv\<close> in the order comma with UTF-8, comma with
  Latin-1, tab, whitespace; every call but the last one made has failed, a result is that
  of the last call made, and the error is raised exactly when all four fail.
  \<open>load_and_process_data\<close> of \<open>download_and_plot.py\<close> makes the first two of these
  attempts only and reports failure exactly when both fail.
\<close>

theorem load_attempts_in_order:
  assumes "\<not> suffix ''.xlsx'' filepath" and "\<not> suffix ''.xls'' filepath"
    and "r = load_data_from_file load_excel read_csv filepath"
    and "r' = load_and_process_data read_excel read_csv filepath"
  shows "((\<exists>e. fst r = Inl e) \<longleftrightarrow>
            read_csv filepath Comma UTF8 = None \<and> read_csv filepath Comma Latin1 = None
            \<and> read_csv filepath Tab UTF8 = None \<and> read_csv filepath Whitespace UTF8 = None)
       \<and> snd r \<noteq> [] \<and> prefix (snd r) four_attempts
       \<and> (\<forall>a\<in>set (butlast (snd r)). read_csv filepath (fst a) (snd a) = None)
       \<and> (\<forall>df. fst r = Inr df \<longrightarrow>
              read_csv filepath (fst (last (snd r))) (snd (last (snd r))) = Some df)
       \<and> (fst r' = None \<longleftrightarrow>
            read_csv filepath Comma UTF8 = None \<and> read_csv filepath Comma Latin1 = None)
       \<and> snd r' \<noteq> [] \<and> prefix (snd r') (take 2 four_attempts)
       \<and> (\<forall>a\<in>set (butlast (snd r')). read_csv filepath (fst a) (snd a) = None)
       \<and> (\<forall>df. fst r' = Some df \<longrightarrow>
              read_csv filepath (fst (last (snd r'))) (snd (last (snd r'))) = Some df)"
proof -
  note r = assms(3) [unfolded load_data_from_file_text [OF assms(1,2)]]
  note r' = assms(4) [unfolded load_and_process_data_text [OF assms(1)]]
  have 1: "(\<exists>e. fst r = Inl e) \<longleftrightarrow>
            read_csv filepath Comma UTF8 = None \<and> read_csv filepath Comma Latin1 = None
            \<and> read_csv filepath Tab UTF8 = None \<and> read_csv filepath Whitespace UTF8 = None"
    by (simp add: r split: option.splits)
  have 2: "snd r \<noteq> [] \<and> prefix (snd r) four_attempts"
    by (simp add: r four_attempts_def split: option.splits)
  have 3: "\<forall>a\<in>set (butlast (snd r)). read_csv filepath (fst a) (snd a) = None"
    by (simp add: r four_attempts_def split: option.splits)
  have 4: "\<forall>df. fst r = Inr df \<longrightarrow>
              read_csv filepath (fst (last (snd r))) (snd (last (snd r))) = Some df"
    by (simp add: r four_attempts_def split: option.splits)
  have 5: "fst r' = None \<longleftrightarrow>
            read_csv filepath Comma UTF8 = None \<and> read_csv filepath Comma Latin1 = None"
    by (simp add: r' split: option.splits)
  have 6: "snd r' \<noteq> [] \<and> prefix (snd r') (take 2 four_attempts)"
    by (simp add: r' four_attempts_def split: option.splits)
  have 7: "\<forall>a\<in>set (butlast (snd r')). read_csv filepath (fst a) (snd a) = None"
    by (simp add: r' four_attempts_def split: option.splits)
  have 8: "\<forall>df. fst r' = Some df \<longrightarrow>
              read_csv filepath (fst (last (snd r'))) (snd (last (snd r'))) = Some df"
    by (simp add: r' four_attempts_def split: option.splits)
  from 1 2 3 4 5 6 7 8 show ?thesis by (intro conjI) simp_all
qed

text \<open>
  Claim C5 as stated fails: \<open>load_and_process_data\<close> gives up after the two comma-separated
  attempts on a file that the tab-separated attempt would have read.
\<close>

theorem load_and_process_data_stops_early:
  "tab_only_reader raw_csv Tab UTF8 = Some scenario_frame
   \<and> load_and_process_data no_read_excel tab_only_reader raw_csv
       = (None, [(Comma, UTF8), (Comma, Latin1)])"
  by (simp add: load_and_process_data_def tab_only_reader_def raw_csv_def suffix_to_prefix)

theorem load_attempts_in_order_witness:
  "\<not> suffix ''.xlsx'' raw_csv \<and> \<not> suffix ''.xls'' raw_csv
   \<and> load_data_from_file no_excel tab_only_reader raw_csv
       = (Inr scenario_frame, [(Comma, UTF8), (Comma, Latin1), (Tab, UTF8)])
   \<and> prefix (snd (load_data_from_file no_excel tab_only_reader raw_csv)) four_attempts
   \<and> fst (load_and_process_data no_read_excel tab_only_reader raw_csv) = None"
proof -
  have x: "\<not> suffix ''.xlsx'' raw_csv" and y: "\<not> suffix ''.xls'' raw_csv"
    by (simp_all add: raw_csv_def suffix_to_prefix)
  have l: "load_data_from_file no_excel tab_only_reader raw_csv
             = (Inr scenario_frame, [(Comma, UTF8), (Comma, Latin1), (Tab, UTF8)])"
    using x y by (simp add: load_data_from_file_def tab_only_reader_def)
  have t: "tab_only_reader raw_csv Comma UTF8 = None \<and> tab_only_reader raw_csv Comma Latin1 = None"
    by (simp add: tab_only_reader_def)
  from load_attempts_in_order [OF x y refl refl, of no_excel tab_only_reader no_read_excel] l t
  show ?thesis using x y by simp
qed

text \<open>
  Claim C10.  \<open>create_plot\<close> keeps the rows whose date lies in the window from 1960-01-01
  to 2025-12-31 only when at least one row is left; when none is left, the chart shows
  the whole frame with all of its dates.
\<close>

theorem create_plot_window_fallback:
  assumes "create_plot to_datetime df date_col streamflow_col = Inr ch"
    and "dates = process_dates to_datetime df date_col"
    and "df_window = boolean_index df (window_mask dates)"
  shows "filter_window df dates =
           (if nrows df_window = 0 then (df, dates)
            else (df_window, mask_select (window_mask dates) dates))
       \<and> (nrows df_window = 0 \<longrightarrow>
             chart_dates ch = dates \<and> getitem df streamflow_col = Inr (chart_values ch)
             \<and> chart_records ch = nrows df)
       \<and> (nrows df_window \<noteq> 0 \<longrightarrow>
             chart_dates ch = mask_select (window_mask dates) dates
             \<and> getitem df_window streamflow_col = Inr (chart_values ch)
             \<and> chart_records ch = nrows df_window)"
proof -
  have fw: "filter_window df dates =
           (if nrows df_window = 0 then (df, dates)
            else (df_window, mask_select (window_mask dates) dates))"
    unfolding assms(3) by (rule filter_window_cases)
  from assms(1) have
    "case getitem (fst (filter_window df dates)) streamflow_col of
       Inl e \<Rightarrow> False
     | Inr vs \<Rightarrow> chart_dates ch = snd (filter_window df dates) \<and> chart_values ch = vs
                 \<and> chart_records ch = nrows (fst (filter_window df dates))"
    by (auto simp: create_plot_def Let_def assms(2) split: prod.splits sum.splits)
  then have "getitem (fst (filter_window df dates)) streamflow_col = Inr (chart_values ch)
     \<and> chart_dates ch = snd (filter_window df dates)
     \<and> chart_records ch = nrows (fst (filter_window df dates))"
    by (cases "getitem (fst (filter_window df dates)) streamflow_col") simp_all
  with fw show ?thesis by (cases "nrows df_window = 0") simp_all
qed

theorem create_plot_window_fallback_witness:
  "create_plot example_to_datetime out_of_window_frame (Some ''fecha'') ''caudal_m3s''
     = Inr out_of_window_chart
   \<and> nrows (boolean_index out_of_window_frame
               (window_mask (process_dates example_to_datetime out_of_window_frame
                                (Some ''fecha'')))) = 0
   \<and> chart_dates out_of_window_chart
       = process_dates example_to_datetime out_of_window_frame (Some ''fecha'')
   \<and> chart_records out_of_window_chart = nrows out_of_window_frame"
proof -
  have plot: "create_plot example_to_datetime out_of_window_frame (Some ''fecha'') ''caudal_m3s''
                = Inr out_of_window_chart"
    by (simp add: plot_ops frame_ops out_of_window_frame_def out_of_window_chart_def
        example_to_datetime_def)
  have none: "nrows (boolean_index out_of_window_frame
               (window_mask (process_dates example_to_datetime out_of_window_frame
                                (Some ''fecha'')))) = 0"
    by (simp add: plot_ops frame_ops out_of_window_frame_def example_to_datetime_def)
  from create_plot_window_fallback [OF plot refl refl] plot none show ?thesis by simp
qed



end
